theory Spec2Isabelle
  imports Complex_Main "HOL-Library.Word"
begin

section \<open>Predictive failure masking for a link-state routing protocol\<close>

text \<open>
  A shallow embedding of the RFP core of the repository: the timeline of a predictable
  link-down event (\<^verbatim>\<open>topology-mgmt.h\<close>), the link detection module
  (\<^verbatim>\<open>link-detection.h\<close>), the route management module (\<^verbatim>\<open>route-mgmt.h\<close>), the
  performance analyzer (\<^verbatim>\<open>performance-analyzer.h\<close>) and the controller that drives them
  (\<^verbatim>\<open>satnet-controller.h\<close>).

  Conventions of the model.
  \<^item> A C++ \<^verbatim>\<open>double\<close> is a finite IEEE-754 binary64 value, held as the \<^typ>\<open>real\<close> it
    denotes. Every arithmetic operation on doubles rounds its exact result to the nearest
    double, ties to even (\<open>fadd\<close>, \<open>fsub\<close>, \<open>fmul\<close> below); comparisons are those of
    the reals. Expressions are evaluated in double precision, with no wider intermediate
    format. Infinities and NaN are not modelled.
  \<^item> A C++ \<^verbatim>\<open>int\<close> node index is an \<^typ>\<open>int\<close> (the code only compares indices);
    \<^verbatim>\<open>uint32_t\<close> and \<^verbatim>\<open>uint64_t\<close> counters are \<^typ>\<open>32 word\<close> and \<^typ>\<open>64 word\<close>,
    so \<open>+\<close> wraps as in the code.
  \<^item> A \<^verbatim>\<open>std::map\<close> is a partial map; \<^verbatim>\<open>operator[]\<close> inserts the default value for an
    absent key, \<^verbatim>\<open>find\<close> does not.
  \<^item> Calls into the Quagga integration layer (the routing sink) are recorded, in order,
    in a trace kept beside the module state. The layer catches its own exceptions, so
    the \<^verbatim>\<open>try\<close> blocks around these calls never take their \<^verbatim>\<open>catch\<close> branch.
  \<^item> Output on \<^verbatim>\<open>std::cout\<close> and \<^verbatim>\<open>std::cerr\<close> is not modelled.
\<close>

subsection \<open>Double-precision arithmetic\<close>

text \<open>\<open>log2_floor n\<close> is the position of the leading bit of \<open>n > 0\<close>.\<close>

fun log2_floor :: "nat \<Rightarrow> nat" where
  "log2_floor n = (if n < 2 then 0 else Suc (log2_floor (n div 2)))"

declare log2_floor.simps [simp del]

text \<open>The binary exponent of \<open>a > 0\<close>: the \<open>b\<close> with \<open>2^b \<le> a < 2^(b+1)\<close>.\<close>

definition binade :: "real \<Rightarrow> int" where
  "binade a =
     (if 1 \<le> a then int (log2_floor (nat \<lfloor>a\<rfloor>))
      else if nat \<lceil>1 / a\<rceil> \<le> 1 then 0
      else - int (Suc (log2_floor (nat \<lceil>1 / a\<rceil> - 1))))"

definition round_half_even :: "real \<Rightarrow> int" where
  "round_half_even x =
     (let f = \<lfloor>x\<rfloor>; d = x - of_int f
      in if d < 1 / 2 then f
         else if 1 / 2 < d then f + 1
         else if even f then f else f + 1)"

text \<open>
  Rounding to binary64: the nearest multiple of \<open>2^e\<close>, ties to even, where the unit
  \<open>2^e\<close> leaves 53 significant bits and is never below the subnormal unit \<open>2^-1074\<close>.
\<close>

definition rnd :: "real \<Rightarrow> real" where
  "rnd x =
     (if x = 0 then 0
      else (let e = max (binade \<bar>x\<bar> - 52) (- 1074)
            in of_int (round_half_even (x / 2 powi e)) * 2 powi e))"

definition fadd :: "real \<Rightarrow> real \<Rightarrow> real" where
  "fadd x y = rnd (x + y)"

definition fsub :: "real \<Rightarrow> real \<Rightarrow> real" where
  "fsub x y = rnd (x - y)"

definition fmul :: "real \<Rightarrow> real \<Rightarrow> real" where
  "fmul x y = rnd (x * y)"



subsection \<open>Configuration constants\<close>

text \<open>
  \<^verbatim>\<open>core/constellation-params.h\<close> is not among the sources; the two RFP constants are
  the ones the repository's README lists for it
  (\<^verbatim>\<open>RFP_CONVERGENCE_TIME_TC = 2.0\<close>, \<^verbatim>\<open>RFP_SAFETY_MARGIN_DT = 0.5\<close>), both of them
  doubles. The event constructor below takes them as parameters.
\<close>

definition RFP_CONVERGENCE_TIME_TC :: real where
  "RFP_CONVERGENCE_TIME_TC = 2"

definition RFP_SAFETY_MARGIN_DT :: real where
  "RFP_SAFETY_MARGIN_DT = 1 / 2"

subsection \<open>Predictable link-down events (topology-mgmt.h)\<close>

record PredictableLinkDownEvent =
  linkId :: int
  nodeA :: int
  nodeB :: int
  T0 :: real
  T1 :: real
  T2 :: real
  T3 :: real
  active :: bool

text \<open>
  The constructor \<^verbatim>\<open>PredictableLinkDownEvent(lid, a, b, t0)\<close>, with the two constants
  \<open>Tc\<close> and \<open>dT\<close> as parameters. The markers are first derived backwards from \<open>t0\<close>;
  when that makes \<open>T1\<close> negative they are re-derived forwards from \<open>T1 = 0.1\<close>. The
  expressions are evaluated left to right in double arithmetic; the literal \<^verbatim>\<open>2\<close> is the
  double \<open>2\<close> and the literal \<^verbatim>\<open>0.1\<close> is the double nearest to one tenth.
\<close>

definition new_PredictableLinkDownEvent ::
  "real \<Rightarrow> real \<Rightarrow> int \<Rightarrow> int \<Rightarrow> int \<Rightarrow> real \<Rightarrow> PredictableLinkDownEvent" where
  "new_PredictableLinkDownEvent Tc dT lid a b t0 =
     (let t1 = fsub (fsub t0 Tc) (fmul 2 dT);
          t2 = fsub t0 dT;
          t3 = fadd t0 dT
      in if t1 < 0 then
           (let t1' = rnd (1 / 10);
                t2' = fadd (fadd t1' Tc) dT;
                t3' = fadd t2' (fmul 2 dT);
                t0' = fsub t3' dT
            in \<lparr>linkId = lid, nodeA = a, nodeB = b,
                T0 = t0', T1 = t1', T2 = t2', T3 = t3', active = True\<rparr>)
         else
           \<lparr>linkId = lid, nodeA = a, nodeB = b,
            T0 = t0, T1 = t1, T2 = t2, T3 = t3, active = True\<rparr>)"

text \<open>The constructor as the program calls it, with the configured constants.\<close>

definition PredictableLinkDownEvent_ctor ::
  "int \<Rightarrow> int \<Rightarrow> int \<Rightarrow> real \<Rightarrow> PredictableLinkDownEvent" where
  "PredictableLinkDownEvent_ctor lid a b t0 =
     new_PredictableLinkDownEvent RFP_CONVERGENCE_TIME_TC RFP_SAFETY_MARGIN_DT lid a b t0"

subsection \<open>Topology management module (topology-mgmt.h)\<close>

record TopologyManagementModule =
  m_predictedEvents :: "PredictableLinkDownEvent list"

definition TopologyManagementModule_init :: TopologyManagementModule where
  "TopologyManagementModule_init = \<lparr>m_predictedEvents = []\<rparr>"

definition AddPredictableLinkDown ::
  "int \<Rightarrow> int \<Rightarrow> int \<Rightarrow> real \<Rightarrow> TopologyManagementModule \<Rightarrow> TopologyManagementModule" where
  "AddPredictableLinkDown lid a b eventTime tmm =
     tmm\<lparr>m_predictedEvents :=
           m_predictedEvents tmm @ [PredictableLinkDownEvent_ctor lid a b eventTime]\<rparr>"

definition GetActiveEvents ::
  "real \<Rightarrow> TopologyManagementModule \<Rightarrow> PredictableLinkDownEvent list" where
  "GetActiveEvents currentTime tmm =
     filter (\<lambda>e. active e \<and> currentTime \<ge> T1 e \<and> currentTime \<le> T3 e)
       (m_predictedEvents tmm)"

text \<open>
  The loop of \<^verbatim>\<open>IsInBldPeriod\<close>, returning at the first matching event. The second
  disjunct of the pair test is the source's: it compares \<^verbatim>\<open>event.nodeA\<close> with both
  arguments.
\<close>

fun IsInBldPeriod_loop :: "PredictableLinkDownEvent list \<Rightarrow> int \<Rightarrow> int \<Rightarrow> real \<Rightarrow> bool" where
  "IsInBldPeriod_loop [] a b currentTime = False"
| "IsInBldPeriod_loop (e # es) a b currentTime =
     (if active e \<and>
         ((nodeA e = a \<and> nodeB e = b) \<or> (nodeA e = b \<and> nodeA e = a)) \<and>
         currentTime \<ge> T1 e \<and> currentTime \<le> T3 e
      then True
      else IsInBldPeriod_loop es a b currentTime)"

definition IsInBldPeriod :: "int \<Rightarrow> int \<Rightarrow> real \<Rightarrow> TopologyManagementModule \<Rightarrow> bool" where
  "IsInBldPeriod a b currentTime tmm =
     IsInBldPeriod_loop (m_predictedEvents tmm) a b currentTime"

fun IsInBfuPeriod_loop :: "PredictableLinkDownEvent list \<Rightarrow> real \<Rightarrow> bool" where
  "IsInBfuPeriod_loop [] currentTime = False"
| "IsInBfuPeriod_loop (e # es) currentTime =
     (if active e \<and> currentTime \<ge> T1 e \<and> currentTime \<le> T2 e
      then True
      else IsInBfuPeriod_loop es currentTime)"

definition IsInBfuPeriod :: "real \<Rightarrow> TopologyManagementModule \<Rightarrow> bool" where
  "IsInBfuPeriod currentTime tmm = IsInBfuPeriod_loop (m_predictedEvents tmm) currentTime"

subsection \<open>The routing sink (quagga-integration.h)\<close>

text \<open>
  The calls the modules make into the Quagga integration layer. A node pointer is the
  node's identifier; a null pointer is never passed by the code modelled here.
\<close>

type_synonym node = nat

datatype quagga_call =
    SetQuaggaLinkStateReal int int bool
  | AddAlternativeRoutes int int
  | ApplyRouteUpdateReal node string
  | ForceOspfConvergence

subsection \<open>Link detection module (link-detection.h)\<close>

type_synonym link = "int \<times> int"

record LinkDetectionModule =
  m_realLinkStates :: "link \<rightharpoonup> bool"
  m_reportedLinkStates :: "link \<rightharpoonup> bool"
  m_forcedDownLinks :: "link set"
  ldm_calls :: "quagga_call list"

definition LinkDetectionModule_init :: LinkDetectionModule where
  "LinkDetectionModule_init =
     \<lparr>m_realLinkStates = Map.empty, m_reportedLinkStates = Map.empty,
      m_forcedDownLinks = {}, ldm_calls = []\<rparr>"

definition MakeOrderedPair :: "int \<Rightarrow> int \<Rightarrow> link" where
  "MakeOrderedPair a b = (min a b, max a b)"

text \<open>
  \<^verbatim>\<open>m[k]\<close> on a \<^verbatim>\<open>std::map<K, bool>\<close>: the value read, and the map with the default
  \<^verbatim>\<open>false\<close> inserted when the key was absent.
\<close>

definition map_subscript :: "('k \<rightharpoonup> bool) \<Rightarrow> 'k \<Rightarrow> bool \<times> ('k \<rightharpoonup> bool)" where
  "map_subscript m k = (case m k of None \<Rightarrow> (False, m(k \<mapsto> False)) | Some v \<Rightarrow> (v, m))"

definition ForceLinkDown :: "int \<Rightarrow> int \<Rightarrow> real \<Rightarrow> LinkDetectionModule \<Rightarrow> LinkDetectionModule" where
  "ForceLinkDown a b currentTime s =
     (let link = MakeOrderedPair a b
      in s\<lparr>m_forcedDownLinks := insert link (m_forcedDownLinks s),
           m_reportedLinkStates := (m_reportedLinkStates s)(link \<mapsto> False),
           ldm_calls := ldm_calls s @ [SetQuaggaLinkStateReal a b False, AddAlternativeRoutes a b]\<rparr>)"

definition RestoreNormalDetection ::
  "int \<Rightarrow> int \<Rightarrow> real \<Rightarrow> LinkDetectionModule \<Rightarrow> LinkDetectionModule" where
  "RestoreNormalDetection a b currentTime s =
     (let link = MakeOrderedPair a b;
          (realState, real') = map_subscript (m_realLinkStates s) link
      in s\<lparr>m_forcedDownLinks := m_forcedDownLinks s - {link},
           m_realLinkStates := real',
           m_reportedLinkStates := (m_reportedLinkStates s)(link \<mapsto> realState),
           ldm_calls := ldm_calls s @ [SetQuaggaLinkStateReal a b realState]\<rparr>)"

text \<open>
  \<^verbatim>\<open>UpdateRealLinkState\<close>; the \<^verbatim>\<open>tmm\<close> pointer may be null (\<open>None\<close>). The new value is
  compared with the previous \<^emph>\<open>real\<close> state, as in the source.
\<close>

definition UpdateRealLinkState ::
  "int \<Rightarrow> int \<Rightarrow> bool \<Rightarrow> real \<Rightarrow> TopologyManagementModule option \<Rightarrow>
   LinkDetectionModule \<Rightarrow> LinkDetectionModule" where
  "UpdateRealLinkState a b isUp currentTime tmm s =
     (let link = MakeOrderedPair a b;
          (oldState, real') = map_subscript (m_realLinkStates s) link;
          s1 = s\<lparr>m_realLinkStates := real'(link \<mapsto> isUp)\<rparr>
      in if link \<in> m_forcedDownLinks s1 then s1
         else if (case tmm of None \<Rightarrow> False | Some m \<Rightarrow> IsInBldPeriod a b currentTime m) then s1
         else if isUp \<noteq> oldState then
           s1\<lparr>m_reportedLinkStates := (m_reportedLinkStates s1)(link \<mapsto> isUp),
              ldm_calls := ldm_calls s1 @ [SetQuaggaLinkStateReal a b isUp]\<rparr>
         else s1)"

definition GetReportedState :: "int \<Rightarrow> int \<Rightarrow> LinkDetectionModule \<Rightarrow> bool" where
  "GetReportedState a b s =
     (case m_reportedLinkStates s (MakeOrderedPair a b) of Some v \<Rightarrow> v | None \<Rightarrow> False)"

definition GetRealState :: "int \<Rightarrow> int \<Rightarrow> LinkDetectionModule \<Rightarrow> bool" where
  "GetRealState a b s =
     (case m_realLinkStates s (MakeOrderedPair a b) of Some v \<Rightarrow> v | None \<Rightarrow> False)"

text \<open>
  Sequences of calls on the module. The two accessors read with \<^verbatim>\<open>find\<close> and return a
  value only, so as steps they leave the module as it is.
\<close>

datatype ldm_op =
    OpForceLinkDown int int real
  | OpRestoreNormalDetection int int real
  | OpUpdateRealLinkState int int bool real "TopologyManagementModule option"
  | OpGetReportedState int int
  | OpGetRealState int int

fun ldm_step :: "ldm_op \<Rightarrow> LinkDetectionModule \<Rightarrow> LinkDetectionModule" where
  "ldm_step (OpForceLinkDown a b t) s = ForceLinkDown a b t s"
| "ldm_step (OpRestoreNormalDetection a b t) s = RestoreNormalDetection a b t s"
| "ldm_step (OpUpdateRealLinkState a b isUp t tmm) s = UpdateRealLinkState a b isUp t tmm s"
| "ldm_step (OpGetReportedState a b) s = s"
| "ldm_step (OpGetRealState a b) s = s"

fun ldm_run :: "ldm_op list \<Rightarrow> LinkDetectionModule \<Rightarrow> LinkDetectionModule" where
  "ldm_run [] s = s"
| "ldm_run (op # ops) s = ldm_run ops (ldm_step op s)"

text \<open>The record a state-changing call works on; the accessors change none.\<close>

fun op_link :: "ldm_op \<Rightarrow> link option" where
  "op_link (OpForceLinkDown a b t) = Some (MakeOrderedPair a b)"
| "op_link (OpRestoreNormalDetection a b t) = Some (MakeOrderedPair a b)"
| "op_link (OpUpdateRealLinkState a b isUp t tmm) = Some (MakeOrderedPair a b)"
| "op_link (OpGetReportedState a b) = None"
| "op_link (OpGetRealState a b) = None"

fun is_restore_of :: "link \<Rightarrow> ldm_op \<Rightarrow> bool" where
  "is_restore_of l (OpRestoreNormalDetection a b t) = (MakeOrderedPair a b = l)"
| "is_restore_of l _ = False"

subsection \<open>Route management module (route-mgmt.h)\<close>

record RouteManagementModule =
  m_bfuActive :: bool
  m_pendingUpdates :: "(node \<times> string) list"
  m_routeUpdatesBlocked :: "32 word"
  m_routeUpdatesApplied :: "32 word"
  rmm_calls :: "quagga_call list"

definition RouteManagementModule_init :: RouteManagementModule where
  "RouteManagementModule_init =
     \<lparr>m_bfuActive = False, m_pendingUpdates = [], m_routeUpdatesBlocked = 0,
      m_routeUpdatesApplied = 0, rmm_calls = []\<rparr>"

definition StartBfuPeriod :: "real \<Rightarrow> RouteManagementModule \<Rightarrow> RouteManagementModule" where
  "StartBfuPeriod currentTime s = s\<lparr>m_bfuActive := True\<rparr>"

text \<open>The loop of \<^verbatim>\<open>EndBfuPeriod\<close> over the pending updates, first to last.\<close>

fun apply_pending :: "(node \<times> string) list \<Rightarrow> RouteManagementModule \<Rightarrow> RouteManagementModule" where
  "apply_pending [] s = s"
| "apply_pending (u # us) s =
     apply_pending us
       (s\<lparr>rmm_calls := rmm_calls s @ [ApplyRouteUpdateReal (fst u) (snd u)],
          m_routeUpdatesApplied := m_routeUpdatesApplied s + 1\<rparr>)"

definition EndBfuPeriod :: "real \<Rightarrow> RouteManagementModule \<Rightarrow> RouteManagementModule" where
  "EndBfuPeriod currentTime s =
     (let s1 = s\<lparr>m_bfuActive := False\<rparr>;
          s2 = apply_pending (m_pendingUpdates s1) s1;
          s3 = s2\<lparr>m_pendingUpdates := []\<rparr>
      in s3\<lparr>rmm_calls := rmm_calls s3 @ [ForceOspfConvergence]\<rparr>)"

definition OnNewRoutingTable ::
  "node \<Rightarrow> string \<Rightarrow> real \<Rightarrow> RouteManagementModule \<Rightarrow> RouteManagementModule" where
  "OnNewRoutingTable n routeUpdate currentTime s =
     (if m_bfuActive s then
        s\<lparr>m_pendingUpdates := m_pendingUpdates s @ [(n, routeUpdate)],
          m_routeUpdatesBlocked := m_routeUpdatesBlocked s + 1\<rparr>
      else
        s\<lparr>rmm_calls := rmm_calls s @ [ApplyRouteUpdateReal n routeUpdate],
          m_routeUpdatesApplied := m_routeUpdatesApplied s + 1\<rparr>)"


definition GetAppliedUpdatesCount :: "RouteManagementModule \<Rightarrow> 32 word" where
  "GetAppliedUpdatesCount s = m_routeUpdatesApplied s"

definition IsBfuActive :: "RouteManagementModule \<Rightarrow> bool" where
  "IsBfuActive s = m_bfuActive s"

text \<open>Sequences of calls on the module.\<close>

datatype rmm_op =
    OpStartBfuPeriod real
  | OpEndBfuPeriod real
  | OpOnNewRoutingTable node string real

fun rmm_step :: "rmm_op \<Rightarrow> RouteManagementModule \<Rightarrow> RouteManagementModule" where
  "rmm_step (OpStartBfuPeriod t) s = StartBfuPeriod t s"
| "rmm_step (OpEndBfuPeriod t) s = EndBfuPeriod t s"
| "rmm_step (OpOnNewRoutingTable n u t) s = OnNewRoutingTable n u t s"

fun rmm_run :: "rmm_op list \<Rightarrow> RouteManagementModule \<Rightarrow> RouteManagementModule" where
  "rmm_run [] s = s"
| "rmm_run (op # ops) s = rmm_run ops (rmm_step op s)"



definition applied_call :: "node \<times> string \<Rightarrow> quagga_call" where
  "applied_call u = ApplyRouteUpdateReal (fst u) (snd u)"

fun is_applied_call :: "quagga_call \<Rightarrow> bool" where
  "is_applied_call (ApplyRouteUpdateReal n u) = True"
| "is_applied_call _ = False"

subsection \<open>Decimal strings\<close>

text \<open>\<^verbatim>\<open>std::to_string\<close> on an \<^verbatim>\<open>int\<close>, used for link keys and route updates.\<close>

definition digit_char :: "nat \<Rightarrow> char" where
  "digit_char d = ''0123456789'' ! (d mod 10)"

fun string_of_nat :: "nat \<Rightarrow> string" where
  "string_of_nat n =
     (if n < 10 then [digit_char n]
      else string_of_nat (n div 10) @ [digit_char (n mod 10)])"

declare string_of_nat.simps [simp del]

definition to_string :: "int \<Rightarrow> string" where
  "to_string i = (if i < 0 then CHR ''-'' # string_of_nat (nat (- i)) else string_of_nat (nat i))"

subsection \<open>Performance analyzer (performance-analyzer.h)\<close>

record Metrics =
  packetsLost :: "32 word"
  routeOutageTotal :: real
  linkDownEvents :: "32 word"
  detectionTimeTotal :: real
  realQuaggaModifications :: "32 word"

definition Metrics_init :: Metrics where
  "Metrics_init =
     \<lparr>packetsLost = 0, routeOutageTotal = 0, linkDownEvents = 0, detectionTimeTotal = 0,
      realQuaggaModifications = 0\<rparr>"

record LinkEvent =
  linkDownTime :: real
  routeUpdateTime :: real
  detectionTime :: real
  isRfp :: bool
  packetsLostDuringOutage :: "32 word"
  completed :: bool


record PerformanceAnalyzer =
  m_standardOspf :: Metrics
  m_rfp :: Metrics
  m_simulationStartTime :: real
  m_activeEvents :: "string \<rightharpoonup> LinkEvent"
  m_packetsSentTotal :: "64 word"
  m_packetsReceivedTotal :: "64 word"
  m_packetsAtLinkDown :: "64 word"

definition PerformanceAnalyzer_init :: PerformanceAnalyzer where
  "PerformanceAnalyzer_init =
     \<lparr>m_standardOspf = Metrics_init, m_rfp = Metrics_init, m_simulationStartTime = 0,
      m_activeEvents = Map.empty, m_packetsSentTotal = 0, m_packetsReceivedTotal = 0,
      m_packetsAtLinkDown = 0\<rparr>"

definition MakeLinkKey :: "int \<Rightarrow> int \<Rightarrow> string" where
  "MakeLinkKey a b =
     (if a > b then to_string b @ ''-'' @ to_string a else to_string a @ ''-'' @ to_string b)"

definition SetSimulationStart :: "real \<Rightarrow> PerformanceAnalyzer \<Rightarrow> PerformanceAnalyzer" where
  "SetSimulationStart startTime s = s\<lparr>m_simulationStartTime := startTime\<rparr>"

definition OnPacketSent :: "PerformanceAnalyzer \<Rightarrow> PerformanceAnalyzer" where
  "OnPacketSent s = s\<lparr>m_packetsSentTotal := m_packetsSentTotal s + 1\<rparr>"

definition OnPacketReceived :: "PerformanceAnalyzer \<Rightarrow> PerformanceAnalyzer" where
  "OnPacketReceived s = s\<lparr>m_packetsReceivedTotal := m_packetsReceivedTotal s + 1\<rparr>"


definition RecordOspfDetection ::
  "real \<Rightarrow> int \<Rightarrow> int \<Rightarrow> PerformanceAnalyzer \<Rightarrow> PerformanceAnalyzer" where
  "RecordOspfDetection now a b s =
     (let key = MakeLinkKey a b
      in case m_activeEvents s key of
           None \<Rightarrow> s
         | Some event \<Rightarrow>
             if \<not> isRfp event then
               s\<lparr>m_activeEvents :=
                   (m_activeEvents s)(key \<mapsto>
                      event\<lparr>detectionTime := fsub now (linkDownTime event)\<rparr>)\<rparr>
             else s)"


text \<open>The five accumulations both branches of the recording functions perform.\<close>

definition accumulate :: "real \<Rightarrow> 32 word \<Rightarrow> real \<Rightarrow> 32 word \<Rightarrow> Metrics \<Rightarrow> Metrics" where
  "accumulate outage lost detection mods m =
     m\<lparr>routeOutageTotal := fadd (routeOutageTotal m) outage,
       packetsLost := packetsLost m + lost,
       linkDownEvents := linkDownEvents m + 1,
       detectionTimeTotal := fadd (detectionTimeTotal m) detection,
       realQuaggaModifications := realQuaggaModifications m + mods\<rparr>"


definition RecordLinkDownEvent ::
  "bool \<Rightarrow> real \<Rightarrow> 32 word \<Rightarrow> real \<Rightarrow> 32 word \<Rightarrow> PerformanceAnalyzer \<Rightarrow> PerformanceAnalyzer" where
  "RecordLinkDownEvent useRfp outageTimeMs lost detectionTimeMs quaggaMods s =
     (if useRfp then
        s\<lparr>m_rfp := accumulate outageTimeMs lost detectionTimeMs quaggaMods (m_rfp s)\<rparr>
      else
        s\<lparr>m_standardOspf :=
            accumulate outageTimeMs lost detectionTimeMs quaggaMods (m_standardOspf s)\<rparr>)"

subsection \<open>The simulator's node list and scheduler\<close>

text \<open>
  The simulation engine is not part of the repository. Of its node list the controller
  uses the node count and the lookup of a node by index (\<open>None\<close> is the null pointer);
  both are parameters here. A call of \<^verbatim>\<open>Simulator::Schedule\<close> is recorded with its delay,
  the action scheduled and the action's arguments.
\<close>

record NodeList =
  GetNNodes :: nat
  GetNode :: "int \<Rightarrow> node option"

datatype rfp_action = T1Actions | T2Actions | T0Actions | T3Actions

datatype scheduled_call = Schedule real rfp_action int int real

definition ValidateNodeIndices :: "NodeList \<Rightarrow> int \<Rightarrow> int \<Rightarrow> bool" where
  "ValidateNodeIndices nl a b =
     (if a < 0 \<or> b < 0 then False
      else if a \<ge> int (GetNNodes nl) \<or> b \<ge> int (GetNNodes nl) then False
      else if a = b then False
      else True)"

subsection \<open>The controller (satnet-controller.h)\<close>

record SatnetOspfController =
  m_tmm :: TopologyManagementModule
  m_ldm :: LinkDetectionModule
  m_rmm :: RouteManagementModule
  m_analyzer :: PerformanceAnalyzer
  m_eventCounter :: "32 word"
  m_lastEventTime :: real
  m_totalQuaggaModifications :: "32 word"
  scheduled :: "scheduled_call list"

definition SatnetOspfController_init :: SatnetOspfController where
  "SatnetOspfController_init =
     \<lparr>m_tmm = TopologyManagementModule_init, m_ldm = LinkDetectionModule_init,
      m_rmm = RouteManagementModule_init, m_analyzer = PerformanceAnalyzer_init,
      m_eventCounter = 0, m_lastEventTime = 0, m_totalQuaggaModifications = 0,
      scheduled = []\<rparr>"

definition SchedulePredictableLinkDown ::
  "NodeList \<Rightarrow> int \<Rightarrow> int \<Rightarrow> int \<Rightarrow> real \<Rightarrow> SatnetOspfController \<Rightarrow> SatnetOspfController" where
  "SchedulePredictableLinkDown nl lid a b eventTime c =
     (if \<not> ValidateNodeIndices nl a b then c
      else
        (let c1 = c\<lparr>m_tmm := AddPredictableLinkDown lid a b eventTime (m_tmm c)\<rparr>;
             event = PredictableLinkDownEvent_ctor lid a b eventTime
         in if T1 event > 0 then
              c1\<lparr>scheduled := scheduled c1 @
                    [Schedule (T1 event) T1Actions a b (T1 event),
                     Schedule (T2 event) T2Actions a b (T2 event),
                     Schedule (T0 event) T0Actions a b (T0 event),
                     Schedule (T3 event) T3Actions a b (T3 event)],
                 m_eventCounter := m_eventCounter c1 + 1\<rparr>
            else c1))"

text \<open>The loop of \<^verbatim>\<open>FindAlternativePath\<close> over the first ten node indices at most.\<close>

fun FindAlternativePath_loop :: "nat list \<Rightarrow> int \<Rightarrow> int \<Rightarrow> int" where
  "FindAlternativePath_loop [] a b = - 1"
| "FindAlternativePath_loop (i # is) a b =
     (if int i \<noteq> a \<and> int i \<noteq> b then int i else FindAlternativePath_loop is a b)"

definition FindAlternativePath :: "NodeList \<Rightarrow> int \<Rightarrow> int \<Rightarrow> int" where
  "FindAlternativePath nl a b = FindAlternativePath_loop [0 ..< min (GetNNodes nl) 10] a b"

definition GenerateOspfRouteUpdate :: "NodeList \<Rightarrow> int \<Rightarrow> int \<Rightarrow> bool \<Rightarrow> string" where
  "GenerateOspfRouteUpdate nl a b isUp =
     (if isUp then
        ''ADD 10.'' @ to_string b @ ''.0.0/16 10.0.'' @ to_string a @ ''.1 1''
      else
        ''DEL 10.'' @ to_string b @ ''.0.0/16 10.0.'' @ to_string a @ ''.1'' @
        (let alternativeNode = FindAlternativePath nl a b
         in if alternativeNode \<ge> 0 then
              '' ADD 10.'' @ to_string b @ ''.0.0/16 10.0.'' @ to_string alternativeNode @ ''.1 5''
            else []))"

definition AnalyzeLinkDownPerformance ::
  "int \<Rightarrow> int \<Rightarrow> real \<Rightarrow> SatnetOspfController \<Rightarrow> SatnetOspfController" where
  "AnalyzeLinkDownPerformance a b currentTime c =
     (if \<not> IsInBldPeriod a b currentTime (m_tmm c) then
        (let detectionTime' = 40000;
             convergenceTime = 100;
             totalOutage = fadd detectionTime' convergenceTime
         in c\<lparr>m_analyzer := RecordLinkDownEvent False totalOutage 15 detectionTime' 1 (m_analyzer c)\<rparr>)
      else c)"

definition OnLinkStateChange ::
  "NodeList \<Rightarrow> int \<Rightarrow> int \<Rightarrow> bool \<Rightarrow> real \<Rightarrow> SatnetOspfController \<Rightarrow> SatnetOspfController" where
  "OnLinkStateChange nl a b isUp currentTime c =
     (let c1 = c\<lparr>m_ldm := UpdateRealLinkState a b isUp currentTime (Some (m_tmm c)) (m_ldm c)\<rparr>;
          ospfState = GetReportedState a b (m_ldm c1);
          c2 = (case GetNode nl a of
                  None \<Rightarrow> c1
                | Some nodeAPtr \<Rightarrow>
                    (case GetNode nl b of
                       None \<Rightarrow> c1
                     | Some nodeBPtr \<Rightarrow>
                         c1\<lparr>m_rmm := OnNewRoutingTable nodeAPtr
                                       (GenerateOspfRouteUpdate nl a b ospfState) currentTime (m_rmm c1),
                            m_totalQuaggaModifications := m_totalQuaggaModifications c1 + 1\<rparr>))
      in if \<not> isUp then AnalyzeLinkDownPerformance a b currentTime c2 else c2)"

definition GetOspfLinkState :: "int \<Rightarrow> int \<Rightarrow> SatnetOspfController \<Rightarrow> bool" where
  "GetOspfLinkState a b c = GetReportedState a b (m_ldm c)"










subsection \<open>Predicates and sample states used in the statements\<close>

text \<open>Every link forced down is reported down.\<close>

definition forced_reported_down :: "LinkDetectionModule \<Rightarrow> bool" where
  "forced_reported_down s =
     (\<forall>l \<in> m_forcedDownLinks s. m_reportedLinkStates s l = Some False)"

text \<open>The link \<open>l\<close> is forced down and reported down.\<close>

definition held_down :: "link \<Rightarrow> LinkDetectionModule \<Rightarrow> bool" where
  "held_down l s = (l \<in> m_forcedDownLinks s \<and> m_reportedLinkStates s l = Some False)"

text \<open>No record exists for the link \<open>l\<close>.\<close>

definition untouched :: "link \<Rightarrow> LinkDetectionModule \<Rightarrow> bool" where
  "untouched l s =
     (m_realLinkStates s l = None \<and> m_reportedLinkStates s l = None \<and>
      l \<notin> m_forcedDownLinks s)"

text \<open>The number of route updates applied through the sink so far.\<close>

definition applied_calls :: "RouteManagementModule \<Rightarrow> nat" where
  "applied_calls s = length (filter is_applied_call (rmm_calls s))"

text \<open>
  The scenario of the specification: one predicted failure of the link \<open>1 <-> 2\<close> at
  \<open>T0 = 20\<close>, hence a masking window \<open>[17, 20.5]\<close>; the link was observed up at time
  \<open>5\<close>, before the window.
\<close>

definition tmm_12 :: TopologyManagementModule where
  "tmm_12 = AddPredictableLinkDown 1 1 2 20 TopologyManagementModule_init"

definition ldm_up :: LinkDetectionModule where
  "ldm_up = UpdateRealLinkState 1 2 True 5 (Some tmm_12) LinkDetectionModule_init"

text \<open>A node list of three nodes, \<open>0\<close>, \<open>1\<close> and \<open>2\<close>.\<close>

definition nodes3 :: NodeList where
  "nodes3 =
     \<lparr>GetNNodes = 3, GetNode = (\<lambda>i. if 0 \<le> i \<and> i < 3 then Some (nat i) else None)\<rparr>"





section \<open>Properties of rounding\<close>

lemma log2_floor_bounds:
  "0 < n \<Longrightarrow> 2 ^ log2_floor n \<le> n \<and> n < 2 ^ Suc (log2_floor n)"
proof (induction n rule: log2_floor.induct)
  case (1 n)
  show ?case
  proof (cases "n < 2")
    case True
    with "1.prems" have "n = 1" by simp
    then show ?thesis by (simp add: log2_floor.simps)
  next
    case False
    then have pos: "0 < n div 2" by simp
    from "1.IH" [OF False pos]
    have IH: "2 ^ log2_floor (n div 2) \<le> n div 2 \<and> n div 2 < 2 ^ Suc (log2_floor (n div 2))" .
    have eq: "log2_floor n = Suc (log2_floor (n div 2))"
      using False by (subst log2_floor.simps) simp
    from IH have "2 * 2 ^ log2_floor (n div 2) \<le> n"
      and "n < 2 * 2 ^ Suc (log2_floor (n div 2))"
      by linarith+
    then show ?thesis by (simp add: eq)
  qed
qed

lemma real_pow2_le: "(2::nat) ^ k \<le> n \<Longrightarrow> (2::real) ^ k \<le> real n"
  by (metis of_nat_le_iff of_nat_numeral of_nat_power)

lemma real_le_pow2: "n \<le> (2::nat) ^ k \<Longrightarrow> real n \<le> (2::real) ^ k"
  by (metis of_nat_le_iff of_nat_numeral of_nat_power)

text \<open>\<open>binade\<close> is the binary exponent.\<close>

lemma binade_bounds:
  assumes "0 < a"
  shows "2 powi binade a \<le> a \<and> a < 2 powi (binade a + 1)"
proof (cases "1 \<le> a")
  case True
  define n where "n = nat \<lfloor>a\<rfloor>"
  define k where "k = log2_floor n"
  from True have n1: "0 < n" by (simp add: n_def)
  have b: "binade a = int k" using True by (simp add: binade_def n_def k_def)
  from log2_floor_bounds [OF n1]
  have lo: "2 ^ k \<le> n" and hi: "n < 2 ^ Suc k" by (simp_all add: k_def)
  have na: "real n \<le> a" using True by (simp add: n_def)
  have an: "a < real n + 1" using True by (simp add: n_def)
  from lo have "(2::real) ^ k \<le> real n" by (rule real_pow2_le)
  with na have "(2::real) ^ k \<le> a" by linarith
  then have 1: "2 powi binade a \<le> a" by (simp only: b power_int_of_nat)
  from hi have "Suc n \<le> 2 ^ Suc k" by simp
  then have "real (Suc n) \<le> 2 ^ Suc k" by (rule real_le_pow2)
  with an have "a < 2 ^ Suc k" by simp
  moreover have "binade a + 1 = int (Suc k)" by (simp add: b)
  ultimately have 2: "a < 2 powi (binade a + 1)" by (simp only: power_int_of_nat)
  from 1 2 show ?thesis by simp
next
  case False
  with assms have a1: "a < 1" and a0: "0 < a" by simp_all
  define y where "y = 1 / a"
  have y1: "1 < y" using a0 a1 by (simp add: y_def)
  define n where "n = nat \<lceil>y\<rceil>"
  have c1: "1 < \<lceil>y\<rceil>" using y1 by linarith
  then have n2: "2 \<le> n" unfolding n_def by linarith
  define k where "k = log2_floor (n - 1)"
  have nle: "\<not> nat \<lceil>1 / a\<rceil> \<le> 1" using n2 unfolding n_def y_def by linarith
  have b: "binade a = - int (Suc k)"
    using False nle unfolding binade_def k_def n_def y_def by simp
  have "0 < n - 1" using n2 by simp
  from log2_floor_bounds [OF this]
  have lo: "2 ^ k \<le> n - 1" and hi: "n - 1 < 2 ^ Suc k" by (simp_all add: k_def)
  have rn: "real n = of_int \<lceil>y\<rceil>" using c1 unfolding n_def by simp
  have yn: "y \<le> real n" unfolding rn by (rule le_of_int_ceiling)
  have ny: "real n - 1 < y" unfolding rn by linarith
  from hi have "n \<le> 2 ^ Suc k" by simp
  then have "real n \<le> 2 ^ Suc k" by (rule real_le_pow2)
  with yn have "1 / a \<le> 2 ^ Suc k" unfolding y_def by linarith
  with a0 have "1 / 2 ^ Suc k \<le> a" by (simp add: field_simps)
  then have 1: "2 powi binade a \<le> a"
    by (simp only: b power_int_minus_divide power_int_of_nat)
  from lo have "(2::real) ^ k \<le> real (n - 1)" by (rule real_pow2_le)
  also have "real (n - 1) = real n - 1" using n2 by (simp add: of_nat_diff)
  finally have "2 ^ k < 1 / a" using ny unfolding y_def by linarith
  with a0 have "a < 1 / 2 ^ k" by (simp add: field_simps)
  moreover have "binade a + 1 = - int k" by (simp add: b)
  ultimately have 2: "a < 2 powi (binade a + 1)"
    by (simp only: power_int_minus_divide power_int_of_nat)
  from 1 2 show ?thesis by simp
qed

lemma binade_less:
  assumes "0 < a" and "a < 2 powi j"
  shows "binade a < j"
proof -
  from binade_bounds [OF assms(1)] assms(2)
  have lt: "(2::real) powi binade a < 2 powi j" by simp
  show ?thesis
  proof (rule ccontr)
    assume "\<not> binade a < j"
    then have "j \<le> binade a" by simp
    then have "(2::real) powi j \<le> 2 powi binade a" by (rule power_int_increasing) simp
    with lt show False by simp
  qed
qed


lemma rhe_of_int [simp]: "round_half_even (of_int z) = z"
  by (simp add: round_half_even_def)


text \<open>
  A value with at most 53 significant bits above the subnormal unit is a fixed point of
  rounding: operations whose exact result is such a value do not round.
\<close>

lemma rnd_exact:
  assumes x: "x = of_int m * 2 powi j" and m: "\<bar>m\<bar> < 2 ^ 53" and j: "- 1074 \<le> j"
  shows "rnd x = x"
proof (cases "x = 0")
  case True
  then show ?thesis by (simp add: rnd_def)
next
  case False
  define e where "e = max (binade \<bar>x\<bar> - 52) (- 1074)"
  have pos: "0 < \<bar>x\<bar>" using False by simp
  have "\<bar>x\<bar> = of_int \<bar>m\<bar> * 2 powi j" by (simp add: x abs_mult)
  also have "\<dots> < 2 ^ 53 * 2 powi j"
  proof (rule mult_strict_right_mono)
    from m have "(of_int \<bar>m\<bar> :: real) < of_int (2 ^ 53)" by (simp only: of_int_less_iff)
    then show "(of_int \<bar>m\<bar> :: real) < 2 ^ 53" by simp
  qed simp
  also have "\<dots> = 2 powi (53 + j)" by (simp add: power_int_add)
  finally have "\<bar>x\<bar> < 2 powi (53 + j)" .
  with pos have "binade \<bar>x\<bar> < 53 + j" by (rule binade_less)
  with j have ej: "e \<le> j" by (simp add: e_def)
  have "x / 2 powi e = of_int m * (2 powi j / 2 powi e)" by (simp add: x)
  also have "2 powi j / 2 powi e = (2::real) powi (j - e)" by (simp add: power_int_diff)
  also have "\<dots> = 2 ^ nat (j - e)" using ej by (simp add: power_int_def)
  finally have "x / 2 powi e = of_int (m * 2 ^ nat (j - e))" by simp
  then have "of_int (round_half_even (x / 2 powi e)) * 2 powi e = x / 2 powi e * 2 powi e"
    by (simp only: rhe_of_int)
  also have "\<dots> = x" by simp
  finally show ?thesis using False by (simp add: rnd_def e_def Let_def)
qed





section \<open>Properties of the timeline\<close>

lemmas dbl_eval = rnd_def binade_def log2_floor.simps round_half_even_def Let_def
  fadd_def fsub_def fmul_def

lemmas ctor_eval = PredictableLinkDownEvent_ctor_def new_PredictableLinkDownEvent_def
  RFP_CONVERGENCE_TIME_TC_def RFP_SAFETY_MARGIN_DT_def

lemma rnd_one: "rnd 1 = 1"
  by (simp add: dbl_eval)

lemma rnd_dyadic:
  assumes "\<bar>m\<bar> < 2 ^ 53" and "q \<le> 1074"
  shows "rnd (of_int m / 2 ^ q) = of_int m / 2 ^ q"
proof (rule rnd_exact [of _ m "- int q"])
  show "(of_int m / 2 ^ q :: real) = of_int m * 2 powi (- int q)"
    by (simp add: power_int_minus_divide)
  show "\<bar>m\<bar> < 2 ^ 53" by (rule assms(1))
  show "- 1074 \<le> - int q" using assms(2) by simp
qed














text \<open>
  When the first computation of \<open>T1\<close> is negative the constructor clamps: the markers
  are then the same four doubles whatever \<open>t0\<close> was, \<open>T1 = 0.1\<close>, \<open>T2 = 2.6\<close>, \<open>T0 = 3.1\<close>
  and \<open>T3 = 3.6\<close> (the doubles nearest to these), strictly ordered.
\<close>

lemma ctor_clamped:
  assumes "fsub (fsub t0 RFP_CONVERGENCE_TIME_TC) (fmul 2 RFP_SAFETY_MARGIN_DT) < 0"
  shows "PredictableLinkDownEvent_ctor lid a b t0 =
           \<lparr>linkId = lid, nodeA = a, nodeB = b,
            T0 = 6980579422424269 / 2251799813685248,
            T1 = 3602879701896397 / 36028797018963968,
            T2 = 5854679515581645 / 2251799813685248,
            T3 = 8106479329266893 / 2251799813685248, active = True\<rparr>"
proof -
  have "new_PredictableLinkDownEvent RFP_CONVERGENCE_TIME_TC RFP_SAFETY_MARGIN_DT lid a b t0 =
      \<lparr>linkId = lid, nodeA = a, nodeB = b,
       T0 = fsub (fadd (fadd (fadd (rnd (1 / 10)) RFP_CONVERGENCE_TIME_TC) RFP_SAFETY_MARGIN_DT)
                   (fmul 2 RFP_SAFETY_MARGIN_DT)) RFP_SAFETY_MARGIN_DT,
       T1 = rnd (1 / 10),
       T2 = fadd (fadd (rnd (1 / 10)) RFP_CONVERGENCE_TIME_TC) RFP_SAFETY_MARGIN_DT,
       T3 = fadd (fadd (fadd (rnd (1 / 10)) RFP_CONVERGENCE_TIME_TC) RFP_SAFETY_MARGIN_DT)
              (fmul 2 RFP_SAFETY_MARGIN_DT),
       active = True\<rparr>"
    using assms by (simp add: new_PredictableLinkDownEvent_def Let_def)
  then show ?thesis
    by (simp add: PredictableLinkDownEvent_ctor_def RFP_CONVERGENCE_TIME_TC_def
        RFP_SAFETY_MARGIN_DT_def dbl_eval)
qed

text \<open>
  Below the threshold the clamp applies, here for the values of \<open>t0\<close> whose subtractions
  are exact (multiples of \<open>2^-(p+1)\<close> of moderate size).
\<close>

lemma clamped_below_threshold:
  assumes k: "t0 = of_int k / 2 ^ Suc p" and r: "\<bar>k\<bar> + 6 * 2 ^ p < 2 ^ 53"
    and q: "Suc p \<le> 1074"
    and t: "t0 < RFP_CONVERGENCE_TIME_TC + 2 * RFP_SAFETY_MARGIN_DT"
  shows "T1 (PredictableLinkDownEvent_ctor lid a b t0) = rnd (1 / 10) \<and>
         T1 (PredictableLinkDownEvent_ctor lid a b t0)
           < T2 (PredictableLinkDownEvent_ctor lid a b t0) \<and>
         T2 (PredictableLinkDownEvent_ctor lid a b t0)
           < T0 (PredictableLinkDownEvent_ctor lid a b t0) \<and>
         T0 (PredictableLinkDownEvent_ctor lid a b t0)
           < T3 (PredictableLinkDownEvent_ctor lid a b t0)"
proof -
  define P :: int where "P = 2 ^ p"
  have P0: "0 < P" by (simp add: P_def)
  have rP: "\<bar>k\<bar> + 6 * P < 2 ^ 53" using r by (simp only: P_def)
  from t have t3: "t0 < 3"
    by (simp add: RFP_CONVERGENCE_TIME_TC_def RFP_SAFETY_MARGIN_DT_def)
  have b2: "\<bar>k - 4 * P\<bar> < 2 ^ 53" and b3: "\<bar>k - 6 * P\<bar> < 2 ^ 53"
    using rP P0 by linarith+
  have e2: "t0 - 2 = of_int (k - 4 * P) / 2 ^ Suc p"
    unfolding k P_def by (simp add: field_simps)
  have e3: "t0 - 3 = of_int (k - 6 * P) / 2 ^ Suc p"
    unfolding k P_def by (simp add: field_simps)
  have r2: "rnd (t0 - 2) = t0 - 2" unfolding e2 using b2 q by (rule rnd_dyadic)
  have r3: "rnd (t0 - 3) = t0 - 3" unfolding e3 using b3 q by (rule rnd_dyadic)
  have "fsub (fsub t0 RFP_CONVERGENCE_TIME_TC) (fmul 2 RFP_SAFETY_MARGIN_DT) = t0 - 3"
    by (simp add: fsub_def fmul_def rnd_one r2 r3 RFP_CONVERGENCE_TIME_TC_def
        RFP_SAFETY_MARGIN_DT_def)
  with t3 have "fsub (fsub t0 RFP_CONVERGENCE_TIME_TC) (fmul 2 RFP_SAFETY_MARGIN_DT) < 0"
    by simp
  then show ?thesis by (simp add: ctor_clamped dbl_eval)
qed

lemma ctor_at_threshold:
  "PredictableLinkDownEvent_ctor lid a b 3 =
     \<lparr>linkId = lid, nodeA = a, nodeB = b, T0 = 3, T1 = 0, T2 = 5 / 2, T3 = 7 / 2,
      active = True\<rparr>"
  by (simp add: ctor_eval dbl_eval)

text \<open>
  Claim C4, at its boundary. The constructor clamps when the \<open>T1\<close> it first computes is
  negative (lemmas \<open>ctor_clamped\<close> and \<open>clamped_below_threshold\<close>). At
  \<open>t0 = Tc + 2 dT = 3\<close>, which the claim includes, every operation is exact and \<open>T1\<close> is
  \<open>0\<close>: not the epsilon \<open>0.1\<close>, and not positive although the source's comment reads
  "Ensure T1 > 0". The controller then records the event but, testing \<open>T1 > 0\<close>,
  schedules none of its four actions.
\<close>

theorem C4_threshold_not_clamped:
  "3 \<le> RFP_CONVERGENCE_TIME_TC + 2 * RFP_SAFETY_MARGIN_DT \<and>
   T1 (PredictableLinkDownEvent_ctor 1 1 2 3) = 0 \<and>
   T1 (PredictableLinkDownEvent_ctor 1 1 2 3) \<noteq> 1 / 10 \<and>
   T1 (PredictableLinkDownEvent_ctor 1 1 2 3) \<noteq> rnd (1 / 10) \<and>
   T0 (PredictableLinkDownEvent_ctor 1 1 2 3) = 3 \<and>
   ValidateNodeIndices nodes3 1 2 \<and>
   m_predictedEvents (m_tmm (SchedulePredictableLinkDown nodes3 1 1 2 3 SatnetOspfController_init))
     = [PredictableLinkDownEvent_ctor 1 1 2 3] \<and>
   scheduled (SchedulePredictableLinkDown nodes3 1 1 2 3 SatnetOspfController_init) = []"
proof -
  have eps: "rnd (1 / 10) \<noteq> 0" by (simp add: dbl_eval)
  then show ?thesis
    by (simp add: ctor_at_threshold RFP_CONVERGENCE_TIME_TC_def RFP_SAFETY_MARGIN_DT_def
        ValidateNodeIndices_def nodes3_def SchedulePredictableLinkDown_def Let_def
        AddPredictableLinkDown_def SatnetOspfController_init_def
        TopologyManagementModule_init_def)
qed

section \<open>Properties of the masking window\<close>

lemma tmm_12_events:
  "m_predictedEvents tmm_12 =
     [\<lparr>linkId = 1, nodeA = 1, nodeB = 2, T0 = 20, T1 = 17, T2 = 39 / 2, T3 = 41 / 2,
       active = True\<rparr>]"
  by (simp add: tmm_12_def AddPredictableLinkDown_def TopologyManagementModule_init_def
      ctor_eval dbl_eval)

lemma loop_registered:
  "e \<in> set es \<Longrightarrow> active e \<Longrightarrow> T1 e \<le> t \<Longrightarrow> t \<le> T3 e \<Longrightarrow>
   IsInBldPeriod_loop es (nodeA e) (nodeB e) t"
  by (induction es) auto

lemma IsInBldPeriod_registered:
  "e \<in> set (m_predictedEvents tmm) \<Longrightarrow> active e \<Longrightarrow> T1 e \<le> t \<Longrightarrow> t \<le> T3 e \<Longrightarrow>
   IsInBldPeriod (nodeA e) (nodeB e) t tmm"
  by (simp add: IsInBldPeriod_def loop_registered)

lemmas ldm_defs = ForceLinkDown_def RestoreNormalDetection_def UpdateRealLinkState_def
  map_subscript_def Let_def

lemma update_masked_reported:
  "IsInBldPeriod a b t m \<Longrightarrow>
   m_reportedLinkStates (UpdateRealLinkState a b isUp t (Some m) s) = m_reportedLinkStates s"
  by (simp add: ldm_defs split: option.splits)

text \<open>
  In the order the event was registered with, the masking holds: however many updates
  arrive inside the window, and with whatever values, the reported states stay as they
  were.
\<close>

lemma masked_in_registered_order:
  assumes "e \<in> set (m_predictedEvents tmm)" and "active e"
    and "\<forall>x \<in> set xs. T1 e \<le> snd x \<and> snd x \<le> T3 e"
  shows "m_reportedLinkStates
           (ldm_run (map (\<lambda>x. OpUpdateRealLinkState (nodeA e) (nodeB e) (fst x) (snd x) (Some tmm)) xs) s)
         = m_reportedLinkStates s"
  using assms
proof (induction xs arbitrary: s)
  case Nil
  then show ?case by simp
next
  case (Cons x xs)
  then have "IsInBldPeriod (nodeA e) (nodeB e) (snd x) tmm"
    by (simp add: IsInBldPeriod_registered)
  then have "m_reportedLinkStates
      (UpdateRealLinkState (nodeA e) (nodeB e) (fst x) (snd x) (Some tmm) s) = m_reportedLinkStates s"
    by (rule update_masked_reported)
  with Cons show ?case by simp
qed

text \<open>
  Claim C1, with the pair named in the other order. The event is registered for
  \<open>(1, 2)\<close> and the time \<open>18\<close> lies in its window \<open>[17, 20.5]\<close>; the link is reported up.
  An update \<open>(1, 2, down)\<close> is absorbed, but the same update named \<open>(2, 1, down)\<close> is
  not: the reported state changes to down inside the masking window.
\<close>

theorem C1_reversed_pair_not_masked:
  "IsInBldPeriod 1 2 18 tmm_12 \<and>
   MakeOrderedPair 1 2 \<notin> m_forcedDownLinks ldm_up \<and>
   GetReportedState 1 2 ldm_up \<and>
   GetReportedState 1 2 (UpdateRealLinkState 1 2 False 18 (Some tmm_12) ldm_up) \<and>
   \<not> GetReportedState 1 2 (UpdateRealLinkState 2 1 False 18 (Some tmm_12) ldm_up)"
  by (simp add: ldm_up_def ldm_defs GetReportedState_def LinkDetectionModule_init_def
      MakeOrderedPair_def IsInBldPeriod_def tmm_12_events)

section \<open>Order of the node pair\<close>

lemma MakeOrderedPair_commute: "MakeOrderedPair a b = MakeOrderedPair b a"
  by (simp add: MakeOrderedPair_def min.commute max.commute)

text \<open>
  The link detection module resolves a pair through \<open>MakeOrderedPair\<close>: its accessors
  return the same value for both orders, and its operations leave the same link
  records (the sink is told the pair in the order given).
\<close>

lemma accessors_commute:
  "GetReportedState a b s = GetReportedState b a s \<and> GetRealState a b s = GetRealState b a s"
  by (simp add: GetReportedState_def GetRealState_def MakeOrderedPair_commute [of a b])

lemma force_restore_commute:
  "(ForceLinkDown a b t s)\<lparr>ldm_calls := cs\<rparr> = (ForceLinkDown b a t s)\<lparr>ldm_calls := cs\<rparr> \<and>
   (RestoreNormalDetection a b t s)\<lparr>ldm_calls := cs\<rparr>
     = (RestoreNormalDetection b a t s)\<lparr>ldm_calls := cs\<rparr>"
  by (simp add: ldm_defs MakeOrderedPair_commute [of a b] split: option.splits)

text \<open>
  Claim C6, for the masking-window predicate. \<open>IsInBldPeriod\<close> does not order the pair
  and its test for the reversed pair compares \<^verbatim>\<open>event.nodeA\<close> with both arguments, so
  it can only hold when the arguments are equal: for the event registered as \<open>(1, 2)\<close>
  the predicate holds of \<open>(1, 2)\<close> and fails of \<open>(2, 1)\<close> at the same time.
\<close>

theorem C6_IsInBldPeriod_depends_on_order:
  "IsInBldPeriod 1 2 18 tmm_12 = True \<and> IsInBldPeriod 2 1 18 tmm_12 = False"
  by (simp add: IsInBldPeriod_def tmm_12_events)

section \<open>The forced-down override\<close>

lemma step_forced_reported_down:
  "forced_reported_down s \<Longrightarrow> forced_reported_down (ldm_step op s)"
  by (cases op) (auto simp: forced_reported_down_def ldm_defs split: option.splits)

lemma run_forced_reported_down:
  "forced_reported_down s \<Longrightarrow> forced_reported_down (ldm_run ops s)"
  by (induction ops arbitrary: s) (auto simp: step_forced_reported_down)

lemma init_forced_reported_down: "forced_reported_down LinkDetectionModule_init"
  by (simp add: forced_reported_down_def LinkDetectionModule_init_def)

lemma step_held_down:
  "held_down l s \<Longrightarrow> \<not> is_restore_of l op \<Longrightarrow> held_down l (ldm_step op s)"
  by (cases op) (auto simp: held_down_def ldm_defs split: option.splits)

lemma run_held_down:
  "held_down l s \<Longrightarrow> \<not> list_ex (is_restore_of l) ops \<Longrightarrow> held_down l (ldm_run ops s)"
  by (induction ops arbitrary: s) (auto simp: step_held_down)

lemma force_held_down: "held_down (MakeOrderedPair a b) (ForceLinkDown a b t s)"
  by (simp add: held_down_def ldm_defs)

lemma held_down_reported: "held_down (MakeOrderedPair a b) s \<Longrightarrow> \<not> GetReportedState a b s"
  by (simp add: held_down_def GetReportedState_def)

text \<open>
  Claim C5. In every state the module reaches from its initial one, whatever the
  sequence of operations, a pair that is forced down is reported down. After
  \<open>ForceLinkDown\<close> on a pair (from any state) the pair is reported down; it stays so
  after an immediate \<open>UpdateRealLinkState\<close> with \<open>isUp = true\<close>, in either order of the
  pair, and after any further operations among which none is \<open>RestoreNormalDetection\<close>
  on that pair, while the real state recorded does follow the update.
\<close>

theorem C5_forced_down_reported_down:
  "(MakeOrderedPair a b \<in> m_forcedDownLinks (ldm_run ops LinkDetectionModule_init) \<longrightarrow>
      \<not> GetReportedState a b (ldm_run ops LinkDetectionModule_init)) \<and>
   \<not> GetReportedState a b (ForceLinkDown a b t s) \<and>
   \<not> GetReportedState a b (UpdateRealLinkState a b True t' tmm (ForceLinkDown a b t s)) \<and>
   \<not> GetReportedState a b (UpdateRealLinkState b a True t' tmm (ForceLinkDown a b t s)) \<and>
   GetRealState a b (UpdateRealLinkState a b True t' tmm (ForceLinkDown a b t s)) \<and>
   (\<not> list_ex (is_restore_of (MakeOrderedPair a b)) later \<longrightarrow>
      MakeOrderedPair a b \<in> m_forcedDownLinks (ldm_run later (ForceLinkDown a b t s)) \<and>
      \<not> GetReportedState a b (ldm_run later (ForceLinkDown a b t s)))"
proof -
  let ?l = "MakeOrderedPair a b"
  have reach: "forced_reported_down (ldm_run ops LinkDetectionModule_init)"
    by (rule run_forced_reported_down [OF init_forced_reported_down])
  have 1: "?l \<in> m_forcedDownLinks (ldm_run ops LinkDetectionModule_init) \<longrightarrow>
      \<not> GetReportedState a b (ldm_run ops LinkDetectionModule_init)"
    using reach by (auto simp: forced_reported_down_def GetReportedState_def)
  have h: "held_down ?l (ForceLinkDown a b t s)"
    by (rule force_held_down)
  have 2: "\<not> GetReportedState a b (ForceLinkDown a b t s)"
    using h by (rule held_down_reported)
  have "held_down ?l (ldm_step (OpUpdateRealLinkState a b True t' tmm) (ForceLinkDown a b t s))"
    using h by (rule step_held_down) simp
  then have 3: "\<not> GetReportedState a b (UpdateRealLinkState a b True t' tmm (ForceLinkDown a b t s))"
    by (simp add: held_down_reported)
  have "held_down ?l (ldm_step (OpUpdateRealLinkState b a True t' tmm) (ForceLinkDown a b t s))"
    using h by (rule step_held_down) simp
  then have 4: "\<not> GetReportedState a b (UpdateRealLinkState b a True t' tmm (ForceLinkDown a b t s))"
    by (simp add: held_down_reported)
  have 5: "GetRealState a b (UpdateRealLinkState a b True t' tmm (ForceLinkDown a b t s))"
    by (auto simp: GetRealState_def ldm_defs split: option.splits)
  have 6: "\<not> list_ex (is_restore_of ?l) later \<longrightarrow>
      ?l \<in> m_forcedDownLinks (ldm_run later (ForceLinkDown a b t s)) \<and>
      \<not> GetReportedState a b (ldm_run later (ForceLinkDown a b t s))"
  proof
    assume "\<not> list_ex (is_restore_of ?l) later"
    with h have k: "held_down ?l (ldm_run later (ForceLinkDown a b t s))"
      by (rule run_held_down)
    then have "?l \<in> m_forcedDownLinks (ldm_run later (ForceLinkDown a b t s))"
      by (simp add: held_down_def)
    with k show "?l \<in> m_forcedDownLinks (ldm_run later (ForceLinkDown a b t s)) \<and>
      \<not> GetReportedState a b (ldm_run later (ForceLinkDown a b t s))"
      by (simp add: held_down_reported)
  qed
  from 1 2 3 4 5 6 show ?thesis by blast
qed

text \<open>
  Witness for C5: the link \<open>1 <-> 2\<close> is observed up, forced down, and observed up
  again under the reversed name; it is then forced down, reported down, and really up.
  Two more observations after a fresh \<open>ForceLinkDown\<close> leave it reported down.
\<close>

theorem C5_forced_down_witness:
  "MakeOrderedPair 1 2 \<in> m_forcedDownLinks
     (ldm_run [OpUpdateRealLinkState 1 2 True 5 None, OpForceLinkDown 1 2 17,
               OpUpdateRealLinkState 2 1 True 18 None] LinkDetectionModule_init) \<and>
   \<not> GetReportedState 1 2
     (ldm_run [OpUpdateRealLinkState 1 2 True 5 None, OpForceLinkDown 1 2 17,
               OpUpdateRealLinkState 2 1 True 18 None] LinkDetectionModule_init) \<and>
   GetRealState 1 2
     (ldm_run [OpUpdateRealLinkState 1 2 True 5 None, OpForceLinkDown 1 2 17,
               OpUpdateRealLinkState 2 1 True 18 None] LinkDetectionModule_init) \<and>
   \<not> list_ex (is_restore_of (MakeOrderedPair 1 2))
     [OpUpdateRealLinkState 1 2 True 18 None, OpUpdateRealLinkState 2 1 False 19 None] \<and>
   \<not> GetReportedState 1 2
     (ldm_run [OpUpdateRealLinkState 1 2 True 18 None, OpUpdateRealLinkState 2 1 False 19 None]
        (ForceLinkDown 1 2 17 LinkDetectionModule_init))"
  using C5_forced_down_reported_down
    [of 1 2 "[OpUpdateRealLinkState 1 2 True 5 None, OpForceLinkDown 1 2 17,
              OpUpdateRealLinkState 2 1 True 18 None]"
        17 LinkDetectionModule_init 18 None
        "[OpUpdateRealLinkState 1 2 True 18 None, OpUpdateRealLinkState 2 1 False 19 None]"]
  by (simp add: ldm_defs GetReportedState_def GetRealState_def LinkDetectionModule_init_def
      MakeOrderedPair_def)

section \<open>Pairs never operated on\<close>

lemma step_untouched:
  "untouched l s \<Longrightarrow> op_link op \<noteq> Some l \<Longrightarrow> untouched l (ldm_step op s)"
  by (cases op) (auto simp: untouched_def ldm_defs split: option.splits)

lemma run_untouched:
  "untouched l s \<Longrightarrow> \<not> list_ex (\<lambda>op. op_link op = Some l) ops \<Longrightarrow>
   untouched l (ldm_run ops s)"
  by (induction ops arbitrary: s) (auto simp: step_untouched)

lemma init_untouched: "untouched l LinkDetectionModule_init"
  by (simp add: untouched_def LinkDetectionModule_init_def)

text \<open>
  Claim C9. After any sequence of calls from the initial state among which no
  \<open>ForceLinkDown\<close>, \<open>RestoreNormalDetection\<close> or \<open>UpdateRealLinkState\<close> names the pair (in
  either order), \<open>GetReportedState\<close> and \<open>GetRealState\<close> return false for the pair. The
  accessors read with \<^verbatim>\<open>find\<close>: as steps they leave the module unchanged, so calls
  of them, on this pair too, may occur anywhere in the sequence.
\<close>

theorem C9_untouched_pair_reads_down:
  assumes "\<not> list_ex (\<lambda>op. op_link op = Some (MakeOrderedPair a b)) ops"
  shows "\<not> GetReportedState a b (ldm_run ops LinkDetectionModule_init) \<and>
         \<not> GetRealState a b (ldm_run ops LinkDetectionModule_init) \<and>
         ldm_step (OpGetReportedState a b) s = s \<and>
         ldm_step (OpGetRealState a b) s = s"
proof -
  have "untouched (MakeOrderedPair a b) (ldm_run ops LinkDetectionModule_init)"
    using init_untouched assms by (rule run_untouched)
  then show ?thesis
    by (simp add: untouched_def GetReportedState_def GetRealState_def)
qed

text \<open>
  Witness for C9: operations on the links \<open>0 <-> 1\<close> and \<open>0 <-> 2\<close>, and reads of
  \<open>1 <-> 2\<close>, leave \<open>1 <-> 2\<close> (asked as \<open>(2, 1)\<close>) reading down.
\<close>

theorem C9_untouched_pair_witness:
  "\<not> list_ex (\<lambda>op. op_link op = Some (MakeOrderedPair 2 1))
     [OpUpdateRealLinkState 0 1 True 5 None, OpGetReportedState 1 2,
      OpForceLinkDown 2 0 17, OpGetRealState 2 1] \<and>
   \<not> GetReportedState 2 1
     (ldm_run [OpUpdateRealLinkState 0 1 True 5 None, OpGetReportedState 1 2,
               OpForceLinkDown 2 0 17, OpGetRealState 2 1] LinkDetectionModule_init) \<and>
   \<not> GetRealState 2 1
     (ldm_run [OpUpdateRealLinkState 0 1 True 5 None, OpGetReportedState 1 2,
               OpForceLinkDown 2 0 17, OpGetRealState 2 1] LinkDetectionModule_init) \<and>
   GetReportedState 0 1
     (ldm_run [OpUpdateRealLinkState 0 1 True 5 None, OpGetReportedState 1 2,
               OpForceLinkDown 2 0 17, OpGetRealState 2 1] LinkDetectionModule_init)"
  using C9_untouched_pair_reads_down
    [of 2 1 "[OpUpdateRealLinkState 0 1 True 5 None, OpGetReportedState 1 2,
              OpForceLinkDown 2 0 17, OpGetRealState 2 1]"]
  by (simp add: ldm_defs GetReportedState_def GetRealState_def LinkDetectionModule_init_def
      MakeOrderedPair_def)

section \<open>The update buffer\<close>

lemma apply_pending_eq:
  "apply_pending us s =
     s\<lparr>rmm_calls := rmm_calls s @ map applied_call us,
       m_routeUpdatesApplied := m_routeUpdatesApplied s + of_nat (length us)\<rparr>"
  by (induction us arbitrary: s) (simp_all add: applied_call_def)

lemma EndBfuPeriod_eq:
  "EndBfuPeriod t s =
     s\<lparr>m_bfuActive := False, m_pendingUpdates := [],
       rmm_calls := rmm_calls s @ map applied_call (m_pendingUpdates s) @ [ForceOspfConvergence],
       m_routeUpdatesApplied := m_routeUpdatesApplied s + of_nat (length (m_pendingUpdates s))\<rparr>"
  by (simp add: EndBfuPeriod_def Let_def apply_pending_eq)




lemma is_applied_applied_call [simp]: "is_applied_call (applied_call u)"
  by (simp add: applied_call_def)

text \<open>What one call adds to the number of updates applied through the sink.\<close>

lemma step_applied_calls:
  "applied_calls (rmm_step op r) = applied_calls r +
     (case op of
        OpStartBfuPeriod t \<Rightarrow> 0
      | OpEndBfuPeriod t \<Rightarrow> length (m_pendingUpdates r)
      | OpOnNewRoutingTable n u t \<Rightarrow> if m_bfuActive r then 0 else 1)"
  by (cases op)
    (simp_all add: applied_calls_def StartBfuPeriod_def EndBfuPeriod_eq OnNewRoutingTable_def)

lemma step_applied_calls_mono: "applied_calls r \<le> applied_calls (rmm_step op r)"
  by (simp only: step_applied_calls le_add1)

lemma step_applied_counter:
  "m_routeUpdatesApplied (rmm_step op r) =
     m_routeUpdatesApplied r + of_nat (applied_calls (rmm_step op r) - applied_calls r)"
proof -
  have d: "applied_calls (rmm_step op r) - applied_calls r =
     (case op of
        OpStartBfuPeriod t \<Rightarrow> 0
      | OpEndBfuPeriod t \<Rightarrow> length (m_pendingUpdates r)
      | OpOnNewRoutingTable n u t \<Rightarrow> if m_bfuActive r then 0 else 1)"
    by (simp only: step_applied_calls diff_add_inverse)
  show ?thesis
    unfolding d
    by (cases op) (simp_all add: StartBfuPeriod_def EndBfuPeriod_eq OnNewRoutingTable_def)
qed

text \<open>
  From the initial state on, the applied counter is the number of updates applied
  through the sink, modulo \<open>2^32\<close>.
\<close>

lemma run_applied_counter:
  "m_routeUpdatesApplied s = of_nat (applied_calls s) \<Longrightarrow>
   m_routeUpdatesApplied (rmm_run ops s) = of_nat (applied_calls (rmm_run ops s))"
proof (induction ops arbitrary: s)
  case Nil
  then show ?case by simp
next
  case (Cons op ops)
  have "m_routeUpdatesApplied (rmm_step op s) =
      of_nat (applied_calls s) + of_nat (applied_calls (rmm_step op s) - applied_calls s)"
    using Cons.prems by (simp only: step_applied_counter [of op s])
  also have "\<dots> = of_nat (applied_calls s + (applied_calls (rmm_step op s) - applied_calls s))"
    by simp
  also have "applied_calls s + (applied_calls (rmm_step op s) - applied_calls s)
      = applied_calls (rmm_step op s)"
    using step_applied_calls_mono [of s op] by simp
  finally have "m_routeUpdatesApplied (rmm_step op s) = of_nat (applied_calls (rmm_step op s))" .
  then show ?case by (simp add: Cons.IH)
qed





text \<open>
  Claim C10. \<open>EndBfuPeriod\<close> does not test the BFU flag: from any state it applies the
  entries queued at that moment, first to last, empties the queue, clears the flag and
  triggers convergence. Called twice in a row it triggers convergence twice, the
  second call finding the queue empty.
\<close>

theorem C10_EndBfuPeriod_unguarded:
  "rmm_calls (EndBfuPeriod t s)
     = rmm_calls s @ map applied_call (m_pendingUpdates s) @ [ForceOspfConvergence] \<and>
   m_pendingUpdates (EndBfuPeriod t s) = [] \<and>
   \<not> m_bfuActive (EndBfuPeriod t s) \<and>
   m_routeUpdatesApplied (EndBfuPeriod t s)
     = m_routeUpdatesApplied s + of_nat (length (m_pendingUpdates s)) \<and>
   rmm_calls (EndBfuPeriod t' (EndBfuPeriod t s))
     = rmm_calls s @ map applied_call (m_pendingUpdates s)
         @ [ForceOspfConvergence, ForceOspfConvergence]"
  by (simp add: EndBfuPeriod_eq)

text \<open>
  Witness for C10: on the initial module, where no BFU period is active and nothing is
  queued, two calls leave two convergence triggers in the sink trace.
\<close>

theorem C10_EndBfuPeriod_witness:
  "\<not> m_bfuActive RouteManagementModule_init \<and>
   rmm_calls (EndBfuPeriod 1 RouteManagementModule_init) = [ForceOspfConvergence] \<and>
   rmm_calls (EndBfuPeriod 2 (EndBfuPeriod 1 RouteManagementModule_init))
     = [ForceOspfConvergence, ForceOspfConvergence]"
  using C10_EndBfuPeriod_unguarded [of 1 RouteManagementModule_init 2]
  by (simp add: RouteManagementModule_init_def)

section \<open>The timeline actions of the controller\<close>
















lemma key_12: "MakeLinkKey 1 2 = ''1-2''"
  by (simp add: MakeLinkKey_def to_string_def string_of_nat.simps digit_char_def)



section \<open>Validation of node indices\<close>

lemma invalid_indices:
  "\<not> ValidateNodeIndices nl a b \<longleftrightarrow>
     (a < 0 \<or> b < 0 \<or> int (GetNNodes nl) \<le> a \<or> int (GetNNodes nl) \<le> b \<or> a = b)"
  by (auto simp: ValidateNodeIndices_def)

text \<open>The registration path rejects invalid indices and leaves the controller as it is.\<close>

lemma registration_rejects_invalid:
  "\<not> ValidateNodeIndices nl a b \<Longrightarrow> SchedulePredictableLinkDown nl lid a b t0 c = c"
  by (simp add: SchedulePredictableLinkDown_def)

text \<open>
  Claim C8, for the observation path. \<open>OnLinkStateChange\<close> never calls
  \<open>ValidateNodeIndices\<close>. With three nodes the pair \<open>(1, 1)\<close> is invalid (identical
  indices), yet observing it up on the initial controller creates a link record, real
  and reported up, applies a route update through the sink and raises both the
  applied counter and the count of Quagga modifications.
\<close>

theorem C8_observation_not_validated:
  "\<not> ValidateNodeIndices nodes3 1 1 \<and>
   \<not> GetRealState 1 1 (m_ldm SatnetOspfController_init) \<and>
   GetRealState 1 1 (m_ldm (OnLinkStateChange nodes3 1 1 True 5 SatnetOspfController_init)) \<and>
   GetReportedState 1 1 (m_ldm (OnLinkStateChange nodes3 1 1 True 5 SatnetOspfController_init)) \<and>
   rmm_calls (m_rmm (OnLinkStateChange nodes3 1 1 True 5 SatnetOspfController_init))
     = [ApplyRouteUpdateReal 1 ''ADD 10.1.0.0/16 10.0.1.1 1''] \<and>
   m_routeUpdatesApplied (m_rmm (OnLinkStateChange nodes3 1 1 True 5 SatnetOspfController_init))
     = 1 \<and>
   m_totalQuaggaModifications (OnLinkStateChange nodes3 1 1 True 5 SatnetOspfController_init) = 1"
  by (simp add: ValidateNodeIndices_def nodes3_def OnLinkStateChange_def
      SatnetOspfController_init_def LinkDetectionModule_init_def TopologyManagementModule_init_def
      RouteManagementModule_init_def UpdateRealLinkState_def GetRealState_def GetReportedState_def
      map_subscript_def Let_def MakeOrderedPair_def IsInBldPeriod_def OnNewRoutingTable_def
      GenerateOspfRouteUpdate_def to_string_def string_of_nat.simps digit_char_def)

end
